theory Spec2Isabelle
  imports Main "HOL-Library.Sublist"
begin

section \<open>The Lighthouse CLI runner: a shallow embedding\<close>

text \<open>
  The theory embeds the multi-URL runner (the script with \<^verbatim>\<open>--urls\<close>,
  \<^verbatim>\<open>--url-file\<close> and \<^verbatim>\<open>--concurrent\<close>): the URL set builder, the output
  naming, \<^verbatim>\<open>runLighthouseForUrl\<close>, \<^verbatim>\<open>processUrlsInChunks\<close> and
  \<^verbatim>\<open>runLighthouse\<close>. The single-URL script is not part of it.

  Conventions.
  \<^item> A JavaScript string is a \<open>string\<close>, one \<open>char\<close> per UTF-16 code unit. The
    model therefore covers the strings whose code units are below 256; the functions
    below only ever compare code units with ASCII characters and count them.
  \<^item> A JavaScript number that the code uses as an index or a count is an \<open>int\<close>.
  \<^item> A thrown value is an \<open>exn\<close>, an \<^verbatim>\<open>Error\<close> object with its message; a
    computation that may throw (or an \<^verbatim>\<open>async\<close> function whose promise may
    reject) returns \<open>exn + 'a\<close>, \<open>Inl\<close> being the throw.
  \<^item> What the script reads from outside (the auditor subprocess, the file system,
    the browser library) is a record of oracles, \<open>world\<close>.
\<close>

subsection \<open>URL set builder\<close>

text \<open>\<^verbatim>\<open>url.startsWith(p)\<close>.\<close>

definition startsWith :: "string \<Rightarrow> string \<Rightarrow> bool" where
  "startsWith s p = prefix p s"

text \<open>
  \<^verbatim>\<open>[...new Set(xs)]\<close>: a \<^verbatim>\<open>Set\<close> keeps the first occurrence of every
  value, in insertion order. \<open>seen\<close> is the set built so far.
\<close>

fun set_spread :: "'a list \<Rightarrow> 'a list \<Rightarrow> 'a list" where
  "set_spread seen [] = seen"
| "set_spread seen (x # xs) =
     (if x \<in> set seen then set_spread seen xs else set_spread (seen @ [x]) xs)"

text \<open>The arrow function of the \<^verbatim>\<open>map\<close>: add \<^verbatim>\<open>https://\<close> if the protocol is missing.\<close>

definition normalizeUrl :: "string \<Rightarrow> string" where
  "normalizeUrl url =
     (if \<not> startsWith url ''http://'' \<and> \<not> startsWith url ''https://''
      then ''https://'' @ url
      else url)"

text \<open>
  \<^verbatim>\<open>urlsToAudit = [...new Set(urlsToAudit)].map(url => ...)\<close>: the argument is the list
  gathered from \<^verbatim>\<open>--urls\<close> and \<^verbatim>\<open>--url-file\<close>.
\<close>

definition urlsToAudit :: "string list \<Rightarrow> string list" where
  "urlsToAudit raw = map normalizeUrl (set_spread [] raw)"

subsection \<open>Output naming\<close>

text \<open>The character class \<^verbatim>\<open>[a-zA-Z0-9]\<close>.\<close>

definition isAlnum :: "char \<Rightarrow> bool" where
  "isAlnum c \<longleftrightarrow>
     c \<in> set ''abcdefghijklmnopqrstuvwxyzABCDEFGHIJKLMNOPQRSTUVWXYZ0123456789''"

text \<open>\<^verbatim>\<open>.replace(/^https?:\/\//, '')\<close>: the scheme is removed at the start only.\<close>

definition stripScheme :: "string \<Rightarrow> string" where
  "stripScheme url =
     (if prefix ''https://'' url then drop 8 url
      else if prefix ''http://'' url then drop 7 url
      else url)"

text \<open>
  \<^verbatim>\<open>url.replace(/^https?:\/\//, '').replace(/[^a-zA-Z0-9]/g, '_').substring(0, 100)\<close>
\<close>

definition sanitizedUrl :: "string \<Rightarrow> string" where
  "sanitizedUrl url =
     take 100 (map (\<lambda>c. if isAlnum c then c else CHR ''_'') (stripScheme url))"

text \<open>
  \<^verbatim>\<open>resolve(outputDir, `${sanitizedUrl}.${values.format}`)\<close>. The library function
  \<^verbatim>\<open>path.resolve\<close> is the parameter \<open>resolve\<close>; it takes the list of its
  arguments.
\<close>

definition outputPathFor ::
  "(string list \<Rightarrow> string) \<Rightarrow> string \<Rightarrow> string \<Rightarrow> string \<Rightarrow> string" where
  "outputPathFor resolve dir fmt url = resolve [dir, sanitizedUrl url @ ''.'' @ fmt]"

text \<open>
  A model of \<^verbatim>\<open>path.resolve\<close> on POSIX, for concrete runs. \<open>cwd\<close> is the
  working directory, an absolute path. The arguments are read from the right until
  an absolute one is found (the working directory is the last resort), empty ones
  skipped, \<^verbatim>\<open>resolved = path + "/" + resolved\<close>; the segments are then normalised
  (empty and \<^verbatim>\<open>.\<close> segments dropped, \<^verbatim>\<open>..\<close> removing the segment before it)
  and joined again behind the leading slash.
\<close>

fun splitSlash :: "string \<Rightarrow> string \<Rightarrow> string list" where
  "splitSlash cur [] = [cur]"
| "splitSlash cur (c # cs) =
     (if c = CHR ''/'' then cur # splitSlash [] cs else splitSlash (cur @ [c]) cs)"

fun normalizeSegments :: "string list \<Rightarrow> string list \<Rightarrow> string list" where
  "normalizeSegments acc [] = acc"
| "normalizeSegments acc (s # ss) =
     (if s = [] \<or> s = ''.'' then normalizeSegments acc ss
      else if s = ''..'' then normalizeSegments (butlast acc) ss
      else normalizeSegments (acc @ [s]) ss)"

fun joinSlash :: "string list \<Rightarrow> string" where
  "joinSlash [] = []"
| "joinSlash [s] = s"
| "joinSlash (s # t # ss) = s @ ''/'' @ joinSlash (t # ss)"

text \<open>The argument list of \<open>resolveJoin\<close> is reversed: the rightmost path first.\<close>

fun resolveJoin :: "string list \<Rightarrow> string" where
  "resolveJoin [] = []"
| "resolveJoin (p # ps) =
     (if p = [] then resolveJoin ps
      else if prefix ''/'' p then p @ ''/''
      else resolveJoin ps @ p @ ''/'')"

definition posixResolve :: "string \<Rightarrow> string list \<Rightarrow> string" where
  "posixResolve cwd args =
     ''/'' @ joinSlash (normalizeSegments [] (splitSlash [] (resolveJoin (rev (cwd # args)))))"

subsection \<open>Data\<close>

text \<open>A thrown \<^verbatim>\<open>Error\<close> and its \<^verbatim>\<open>message\<close>.\<close>

datatype exn = Error (message: string)

text \<open>
  The object literals \<^verbatim>\<open>{ url, success, outputPath }\<close> and
  \<^verbatim>\<open>{ url, success, error }\<close>; a property that the literal does not set is \<open>None\<close>.
\<close>

record AuditResult =
  url :: string
  success :: bool
  outputPath :: "string option"
  error :: "string option"

text \<open>What \<^verbatim>\<open>spawnSync\<close> returns, as far as the script reads it.\<close>

record spawn_result =
  exitCode :: int
  stderr :: string

text \<open>
  The module-level state that the functions read: the parsed \<^verbatim>\<open>values\<close>,
  \<^verbatim>\<open>outputDir\<close> and \<^verbatim>\<open>process.env.CHROME_PATH\<close>.
\<close>

record globals =
  format :: string
  categories :: "string option"
  concurrent :: string
  chromeEndpoint :: "string option"
  outputDir :: string
  envChromePath :: "string option"

text \<open>A promise that fulfils with the given value.\<close>

datatype 'a promise = Promise 'a

text \<open>
  The browser object of the automation library: its \<^verbatim>\<open>wsEndpoint()\<close>, the outcome of
  \<^verbatim>\<open>version()\<close>, and the outcome of the \<open>k\<close>-th call of \<^verbatim>\<open>close()\<close>
  (\<open>None\<close>: it returns).
\<close>

record browser =
  wsEndpointOf :: string
  versionOf :: "exn + string"
  closeOf :: "nat \<Rightarrow> exn option"

text \<open>
  The outside. \<open>spawnSync w n cmd env\<close> is the outcome of the \<open>n\<close>-th subprocess of
  the run (counted from 0) for the command line \<open>cmd\<close> and the environment entries
  \<open>env\<close> that the script adds; \<open>fileExists w n p\<close> says whether the file \<open>p\<close> exists
  after that subprocess.
\<close>

record world =
  resolveOf :: "string list \<Rightarrow> string"
  spawnSync :: "nat \<Rightarrow> string list \<Rightarrow> (string \<times> string) list \<Rightarrow> exn + spawn_result"
  fileExists :: "nat \<Rightarrow> string \<Rightarrow> bool"
  puppeteerConnect :: "string \<Rightarrow> exn + browser"
  localChrome :: "string option"
  puppeteerLaunch :: "string \<Rightarrow> exn + browser"

subsection \<open>JavaScript helpers\<close>

text \<open>\<^verbatim>\<open>ToBoolean\<close> of a value that is a string or \<^verbatim>\<open>undefined\<close>.\<close>

definition truthyString :: "string option \<Rightarrow> bool" where
  "truthyString v = (case v of None \<Rightarrow> False | Some s \<Rightarrow> s \<noteq> [])"

text \<open>\<^verbatim>\<open>ToBoolean\<close> of an object, here a promise: every object is truthy.\<close>

definition truthyObject :: "'a promise \<Rightarrow> bool" where
  "truthyObject p = True"

text \<open>\<^verbatim>\<open>Bun.file(path).exists()\<close> returns a promise of a boolean.\<close>

definition bunFileExists :: "world \<Rightarrow> nat \<Rightarrow> string \<Rightarrow> bool promise" where
  "bunFileExists w n path = Promise (fileExists w n path)"

text \<open>\<^verbatim>\<open>try { body } catch (error) { handler }\<close>\<close>

definition tryCatch :: "(exn + 'a) \<Rightarrow> (exn \<Rightarrow> exn + 'a) \<Rightarrow> exn + 'a" where
  "tryCatch body handler = (case body of Inl e \<Rightarrow> handler e | Inr v \<Rightarrow> Inr v)"

text \<open>The character class \<^verbatim>\<open>\d\<close>.\<close>

definition isDigit :: "char \<Rightarrow> bool" where
  "isDigit c \<longleftrightarrow> c \<in> set ''0123456789''"

text \<open>
  \<^verbatim>\<open>wsEndpoint.match(/:(\d+)\//)\<close>: the first group of the leftmost match, if any.
  At a colon the digits are taken greedily and a slash must follow them.
\<close>

fun portMatch :: "string \<Rightarrow> string option" where
  "portMatch [] = None"
| "portMatch (c # cs) =
     (if c = CHR '':'' \<and> takeWhile isDigit cs \<noteq> [] \<and> prefix ''/'' (dropWhile isDigit cs)
      then Some (takeWhile isDigit cs)
      else portMatch cs)"

text \<open>
  \<^verbatim>\<open>xs.slice(start, end)\<close>: a negative index counts from the end, both indices are
  clamped to the list, and the result is empty when the end is not behind the start.
\<close>

definition slice :: "'a list \<Rightarrow> int \<Rightarrow> int \<Rightarrow> 'a list" where
  "slice xs start end' =
     (let len = int (length xs);
          k = (if start < 0 then max (len + start) 0 else min start len);
          final = (if end' < 0 then max (len + end') 0 else min end' len)
      in take (nat (final - k)) (drop (nat k) xs))"

text \<open>
  \<^verbatim>\<open>await Promise.all(promises)\<close> on promises that are all settled: the values in
  order, or the first rejection.
\<close>

fun promiseAll :: "(exn + 'a) list \<Rightarrow> exn + 'a list" where
  "promiseAll [] = Inr []"
| "promiseAll (p # ps) =
     (case p of
        Inl e \<Rightarrow> Inl e
      | Inr v \<Rightarrow> (case promiseAll ps of Inl e \<Rightarrow> Inl e | Inr vs \<Rightarrow> Inr (v # vs)))"

subsection \<open>The audit invoker\<close>

text \<open>
  \<^verbatim>\<open>runLighthouseForUrl(url, wsEndpoint)\<close>, as the \<open>n\<close>-th invocation of the run.
  The function has no \<^verbatim>\<open>await\<close>: it runs to its \<^verbatim>\<open>return\<close> when it is called,
  and \<^verbatim>\<open>spawnSync\<close> blocks until the subprocess has ended. \<open>Inl\<close> would be a
  rejected promise.
\<close>

definition lighthouseArgs :: "globals \<Rightarrow> string \<Rightarrow> string \<Rightarrow> string \<Rightarrow> string list" where
  "lighthouseArgs g url' outPath port =
     [url', ''--output='' @ format g, ''--output-path='' @ outPath, ''--port='' @ port,
      ''--throttling-method=provided'', ''--chrome-flags=--headless'']
     @ (if truthyString (categories g)
        then [''--only-categories='' @ the (categories g)] else [])"

text \<open>The \<^verbatim>\<open>cmd\<close> of the subprocess: the auditor's path and its arguments.\<close>

definition spawnCmd :: "globals \<Rightarrow> world \<Rightarrow> string \<Rightarrow> string \<Rightarrow> string list" where
  "spawnCmd g w url' wsEndpoint =
     (let outPath = outputPathFor (resolveOf w) (outputDir g) (format g) url';
          port = (case portMatch wsEndpoint of Some p \<Rightarrow> p | None \<Rightarrow> ''9222'');
          lighthousePath = resolveOf w [''/usr/local/bin/lighthouse'']
      in lighthousePath # lighthouseArgs g url' outPath port)"

text \<open>
  The entries that the script adds to the subprocess's environment:
  \<^verbatim>\<open>CHROME_PATH: process.env.CHROME_PATH || ""\<close> and \<^verbatim>\<open>CHROME_WS_ENDPOINT\<close>.
\<close>

definition spawnEnv :: "globals \<Rightarrow> string \<Rightarrow> (string \<times> string) list" where
  "spawnEnv g wsEndpoint =
     [(''CHROME_PATH'', if truthyString (envChromePath g) then the (envChromePath g) else []),
      (''CHROME_WS_ENDPOINT'', wsEndpoint)]"

definition runLighthouseForUrl ::
  "globals \<Rightarrow> world \<Rightarrow> nat \<Rightarrow> string \<Rightarrow> string \<Rightarrow> exn + AuditResult" where
  "runLighthouseForUrl g w n url' wsEndpoint =
     tryCatch
       (let outPath = outputPathFor (resolveOf w) (outputDir g) (format g) url'
        in case spawnSync w n (spawnCmd g w url' wsEndpoint) (spawnEnv g wsEndpoint) of
             Inl e \<Rightarrow> Inl e
           | Inr result \<Rightarrow>
               if exitCode result \<noteq> 0
               then Inr \<lparr>url = url', success = False, outputPath = None,
                         error = Some (stderr result)\<rparr>
               else if \<not> truthyObject (bunFileExists w n outPath)
               then Inr \<lparr>url = url', success = False, outputPath = None,
                         error = Some ''Output file not created''\<rparr>
               else Inr \<lparr>url = url', success = True, outputPath = Some outPath,
                         error = None\<rparr>)
       (\<lambda>e. Inr \<lparr>url = url', success = False, outputPath = None,
                  error = Some (message e)\<rparr>)"

subsection \<open>The batch runner\<close>

text \<open>
  \<^verbatim>\<open>chunk.map(url => runLighthouseForUrl(url, wsEndpoint))\<close>: the calls are made
  one after the other, \<open>n\<close> being the number of invocations made before.
\<close>

fun mapCalls ::
  "globals \<Rightarrow> world \<Rightarrow> nat \<Rightarrow> string list \<Rightarrow> string \<Rightarrow> (exn + AuditResult) list" where
  "mapCalls g w n [] wsEndpoint = []"
| "mapCalls g w n (u # us) wsEndpoint =
     runLighthouseForUrl g w n u wsEndpoint # mapCalls g w (Suc n) us wsEndpoint"

text \<open>
  The loop \<^verbatim>\<open>for (let i = 0; i < urls.length; i += chunkSize)\<close> from the state
  \<open>i\<close>, \<open>results\<close>. \<open>batches\<close> records the value of \<^verbatim>\<open>chunk\<close> in every
  iteration (the script logs its length). \<open>None\<close>: the loop never ends. The index is
  an integer here and a double in the script, where a sum beyond \<open>2 ^ 53\<close> is rounded;
  the comparison with the length of the list comes out the same.
\<close>

partial_function (option) chunkLoop ::
  "globals \<Rightarrow> world \<Rightarrow> string list \<Rightarrow> int \<Rightarrow> string \<Rightarrow> int \<Rightarrow> AuditResult list \<Rightarrow>
   string list list \<Rightarrow> (exn + AuditResult list \<times> string list list) option" where
  "chunkLoop g w urls chunkSize wsEndpoint i results batches =
     (if i < int (length urls) then
        (case promiseAll (mapCalls g w (length results)
                 (slice urls i (i + chunkSize)) wsEndpoint) of
           Inl e \<Rightarrow> Some (Inl e)
         | Inr batchResults \<Rightarrow>
             chunkLoop g w urls chunkSize wsEndpoint (i + chunkSize)
               (results @ batchResults) (batches @ [slice urls i (i + chunkSize)]))
      else Some (Inr (results, batches)))"

text \<open>\<^verbatim>\<open>processUrlsInChunks(urls, chunkSize, wsEndpoint)\<close>\<close>

definition processUrlsInChunks ::
  "globals \<Rightarrow> world \<Rightarrow> string list \<Rightarrow> int \<Rightarrow> string \<Rightarrow> (exn + AuditResult list) option" where
  "processUrlsInChunks g w urls chunkSize wsEndpoint =
     (case chunkLoop g w urls chunkSize wsEndpoint 0 [] [] of
        None \<Rightarrow> None
      | Some (Inl e) \<Rightarrow> Some (Inl e)
      | Some (Inr (results, batches)) \<Rightarrow> Some (Inr results))"

text \<open>The chunks that \<^verbatim>\<open>processUrlsInChunks\<close> goes through, in order.\<close>

definition chunksIssued ::
  "globals \<Rightarrow> world \<Rightarrow> string list \<Rightarrow> int \<Rightarrow> string \<Rightarrow> string list list option" where
  "chunksIssued g w urls chunkSize wsEndpoint =
     (case chunkLoop g w urls chunkSize wsEndpoint 0 [] [] of
        Some (Inr (results, batches)) \<Rightarrow> Some batches
      | _ \<Rightarrow> None)"

declare chunkLoop.simps [code]

subsection \<open>The configured concurrency\<close>

text \<open>
  The result of \<^verbatim>\<open>parseInt\<close>: \<^verbatim>\<open>NaN\<close> or an integer. JavaScript rounds an
  integer above \<open>2 ^ 53\<close> to a double, which changes neither its sign nor whether it
  is zero; the model keeps the integer.
\<close>

datatype jsnum = NaN | Num int

text \<open>The white space that \<^verbatim>\<open>parseInt\<close> skips, among the code units below 256.\<close>

definition isWhiteSpace :: "char \<Rightarrow> bool" where
  "isWhiteSpace c \<longleftrightarrow>
     c \<in> set [CHR 0x09, CHR 0x0A, CHR 0x0B, CHR 0x0C, CHR 0x0D, CHR 0x20, CHR 0xA0]"

text \<open>The value of a string of decimal digits, read from the left.\<close>

fun decimalValue :: "int \<Rightarrow> string \<Rightarrow> int" where
  "decimalValue acc [] = acc"
| "decimalValue acc (c # cs) =
     decimalValue (10 * acc + int (length (takeWhile (\<lambda>d. d \<noteq> c) ''0123456789''))) cs"

text \<open>
  \<^verbatim>\<open>parseInt(s, 10)\<close>: leading white space is skipped, one sign is read, then the
  longest run of decimal digits; if there is none the result is \<^verbatim>\<open>NaN\<close>.
\<close>

definition parseInt10 :: "string \<Rightarrow> jsnum" where
  "parseInt10 s =
     (let t = dropWhile isWhiteSpace s;
          sign = (if prefix ''-'' t then - 1 else 1);
          u = (if prefix ''-'' t \<or> prefix ''+'' t then drop 1 t else t);
          z = takeWhile isDigit u
      in if z = [] then NaN else Num (sign * decimalValue 0 z))"

text \<open>
  \<^verbatim>\<open>const concurrentAudits = parseInt(values.concurrent, 10) || 3\<close>: \<^verbatim>\<open>NaN\<close> and
  zero are the falsy numbers.
\<close>

definition concurrentAudits :: "string \<Rightarrow> int" where
  "concurrentAudits s = (case parseInt10 s of NaN \<Rightarrow> 3 | Num n \<Rightarrow> if n = 0 then 3 else n)"

subsection \<open>The run\<close>

text \<open>
  What a run does that can be seen from outside, in order: the calls of
  \<^verbatim>\<open>browser.close()\<close>, the summary (total, successful, failed, and the failed URLs
  with the first line of their error), the error messages, and \<^verbatim>\<open>process.exit\<close>.
\<close>

datatype event =
    CloseCalled
  | BrowserClosedLogged
  | CloseErrorLogged string
  | SummaryLogged nat nat nat
  | FailedUrlLogged string string
  | RunErrorLogged string
  | NoChromeLogged
  | ProcessExit int

text \<open>How a run ends: the function returns, the process exits, or neither ever happens.\<close>

datatype run_end = Returned | Exited int | Hung

text \<open>\<^verbatim>\<open>r.error.split('\n')[0]\<close>; it throws a \<^verbatim>\<open>TypeError\<close> if there is no \<^verbatim>\<open>error\<close>.\<close>

definition firstLine :: "string option \<Rightarrow> exn + string" where
  "firstLine e =
     (case e of
        None \<Rightarrow> Inl (Error ''undefined is not an object'')
      | Some s \<Rightarrow> Inr (takeWhile (\<lambda>c. c \<noteq> CHR 0x0A) s))"

text \<open>
  \<^verbatim>\<open>results.filter(r => !r.success).forEach(r => console.log(... r.url ... r.error.split('\n')[0]))\<close>:
  the lines printed, and the exception that ended the loop, if any.
\<close>

fun failedLines :: "AuditResult list \<Rightarrow> event list \<times> exn option" where
  "failedLines [] = ([], None)"
| "failedLines (r # rs) =
     (if success r then failedLines rs
      else (case firstLine (error r) of
              Inl e \<Rightarrow> ([], Some e)
            | Inr l \<Rightarrow> (FailedUrlLogged (url r) l # fst (failedLines rs), snd (failedLines rs))))"

text \<open>
  The \<^verbatim>\<open>catch\<close> block of \<^verbatim>\<open>runLighthouse\<close>: the error is printed and the process
  exits with code 1. Nothing runs after \<^verbatim>\<open>process.exit\<close>, the \<^verbatim>\<open>finally\<close>
  block included.
\<close>

definition catchBlock :: "event list \<Rightarrow> exn \<Rightarrow> event list \<times> run_end" where
  "catchBlock trace e = (trace @ [RunErrorLogged (message e), ProcessExit 1], Exited 1)"

text \<open>
  The \<^verbatim>\<open>finally\<close> block, reached without \<^verbatim>\<open>process.exit\<close>: if \<^verbatim>\<open>browser\<close> is
  set, \<^verbatim>\<open>close()\<close> is called (the \<open>k\<close>-th call) inside its own \<^verbatim>\<open>try\<close>.
\<close>

definition finallyBlock :: "event list \<Rightarrow> browser option \<Rightarrow> nat \<Rightarrow> event list \<times> run_end" where
  "finallyBlock trace b k =
     (case b of
        None \<Rightarrow> (trace, Returned)
      | Some br \<Rightarrow>
          (case closeOf br k of
             None \<Rightarrow> (trace @ [CloseCalled, BrowserClosedLogged], Returned)
           | Some e \<Rightarrow> (trace @ [CloseCalled, CloseErrorLogged (message e)], Returned)))"

text \<open>
  The first part of the \<^verbatim>\<open>try\<close> block: connect to the given endpoint, or find and
  launch the local browser (which sets \<^verbatim>\<open>process.env.CHROME_PATH\<close>). Without a
  local browser the process exits at once; an exception goes to the \<^verbatim>\<open>catch\<close>
  block, \<^verbatim>\<open>browser\<close> being unset.
\<close>

datatype acquired = Acquired globals browser | NotAcquired "event list \<times> run_end"

definition acquireBrowser :: "globals \<Rightarrow> world \<Rightarrow> acquired" where
  "acquireBrowser g w =
     (if truthyString (chromeEndpoint g)
      then (case puppeteerConnect w (the (chromeEndpoint g)) of
              Inl e \<Rightarrow> NotAcquired (catchBlock [] e)
            | Inr b \<Rightarrow> Acquired g b)
      else (case localChrome w of
              None \<Rightarrow> NotAcquired ([NoChromeLogged, ProcessExit 1], Exited 1)
            | Some chromePath \<Rightarrow>
                (case puppeteerLaunch w chromePath of
                   Inl e \<Rightarrow> NotAcquired (catchBlock [] e)
                 | Inr b \<Rightarrow> Acquired (g\<lparr>envChromePath := Some chromePath\<rparr>) b)))"

text \<open>
  The \<^verbatim>\<open>try\<close> block from \<^verbatim>\<open>browser.version()\<close> on, with the \<^verbatim>\<open>catch\<close> and
  \<^verbatim>\<open>finally\<close> blocks behind it; \<open>b\<close> is the browser that was connected or launched.
\<close>

definition runWithBrowser ::
  "globals \<Rightarrow> world \<Rightarrow> browser \<Rightarrow> string list \<Rightarrow> event list \<times> run_end" where
  "runWithBrowser g w b urls =
     (case versionOf b of
        Inl e \<Rightarrow> catchBlock [] e
      | Inr version \<Rightarrow>
          (case processUrlsInChunks g w urls (concurrentAudits (concurrent g))
                  (wsEndpointOf b) of
             None \<Rightarrow> ([], Hung)
           | Some (Inl e) \<Rightarrow> catchBlock [] e
           | Some (Inr results) \<Rightarrow>
               (case closeOf b 0 of
                  Some e \<Rightarrow> catchBlock [CloseCalled] e
                | None \<Rightarrow>
                    (let successCount = length (filter success results);
                         failCount = length results - successCount;
                         summary = [CloseCalled,
                                    SummaryLogged (length results) successCount failCount]
                     in if failCount > 0
                        then (case snd (failedLines results) of
                                Some e \<Rightarrow> catchBlock (summary @ fst (failedLines results)) e
                              | None \<Rightarrow>
                                  finallyBlock (summary @ fst (failedLines results)) (Some b) 1)
                        else finallyBlock summary (Some b) 1))))"

text \<open>\<^verbatim>\<open>runLighthouse()\<close> on the targets \<^verbatim>\<open>urlsToAudit\<close>.\<close>

definition runLighthouse :: "globals \<Rightarrow> world \<Rightarrow> string list \<Rightarrow> event list \<times> run_end" where
  "runLighthouse g w urls =
     (case acquireBrowser g w of
        NotAcquired r \<Rightarrow> r
      | Acquired g' b \<Rightarrow> runWithBrowser g' w b urls)"

text \<open>The number of calls of \<^verbatim>\<open>browser.close()\<close> in a run.\<close>

definition closeCalls :: "event list \<times> run_end \<Rightarrow> nat" where
  "closeCalls r = length (filter (\<lambda>ev. ev = CloseCalled) (fst r))"

subsection \<open>An example run\<close>

text \<open>
  A run against a remote browser in which every auditor subprocess exits with code 0
  and writes no file: options, browser and outside.
\<close>

definition exampleGlobals :: globals where
  "exampleGlobals =
     \<lparr>format = ''json'', categories = None, concurrent = ''3'',
      chromeEndpoint = Some ''ws://127.0.0.1:9222'', outputDir = ''/work/reports'',
      envChromePath = None\<rparr>"

definition exampleBrowser :: browser where
  "exampleBrowser =
     \<lparr>wsEndpointOf = ''ws://127.0.0.1:9222/devtools/browser/abc'',
      versionOf = Inr ''Chrome/120.0.0.0'', closeOf = (\<lambda>k. None)\<rparr>"

definition exampleWorld :: world where
  "exampleWorld =
     \<lparr>resolveOf = posixResolve ''/work'',
      spawnSync = (\<lambda>n cmd env. Inr \<lparr>exitCode = 0, stderr = []\<rparr>),
      fileExists = (\<lambda>n p. False),
      puppeteerConnect = (\<lambda>endpoint. Inr exampleBrowser),
      localChrome = None,
      puppeteerLaunch = (\<lambda>p. Inl (Error ''Failed to launch the browser process''))\<rparr>"

text \<open>The same, but no subprocess can be spawned.\<close>

definition spawnFailsWorld :: world where
  "spawnFailsWorld =
     exampleWorld\<lparr>spawnSync := \<lambda>n cmd env. Inl (Error ''ENOENT: no such file or directory'')\<rparr>"

text \<open>The same, but every \<^verbatim>\<open>close()\<close> of the browser throws.\<close>

definition closeFailsBrowser :: browser where
  "closeFailsBrowser =
     exampleBrowser\<lparr>closeOf := \<lambda>k. Some (Error ''Protocol error: Connection closed.'')\<rparr>"

definition closeFailsWorld :: world where
  "closeFailsWorld = exampleWorld\<lparr>puppeteerConnect := \<lambda>endpoint. Inr closeFailsBrowser\<rparr>"

text \<open>The same, but the second \<^verbatim>\<open>close()\<close> of the browser throws.\<close>

definition secondCloseFailsBrowser :: browser where
  "secondCloseFailsBrowser =
     exampleBrowser\<lparr>closeOf := \<lambda>k. if k = 0 then None else Some (Error ''Target closed'')\<rparr>"

definition secondCloseFailsWorld :: world where
  "secondCloseFailsWorld =
     exampleWorld\<lparr>puppeteerConnect := \<lambda>endpoint. Inr secondCloseFailsBrowser\<rparr>"

text \<open>The options of the example run with \<^verbatim>\<open>--concurrent=-2\<close>.\<close>

definition negativeGlobals :: globals where
  "negativeGlobals = exampleGlobals\<lparr>concurrent := ''-2''\<rparr>"

section \<open>Properties\<close>

subsection \<open>URL set builder\<close>

text \<open>
  Claim C9. Scheme normalization puts \<^verbatim>\<open>https://\<close> in front of a URL that starts with
  neither \<^verbatim>\<open>http://\<close> nor \<^verbatim>\<open>https://\<close>, and leaves a URL that starts with one
  of them unchanged: \<^verbatim>\<open>example.com\<close> becomes \<^verbatim>\<open>https://example.com\<close>, and
  \<^verbatim>\<open>http://example.com\<close> stays as it is.
\<close>

theorem normalizeUrl_scheme:
  "(\<not> startsWith u ''http://'' \<and> \<not> startsWith u ''https://'' \<longrightarrow>
      normalizeUrl u = ''https://'' @ u)
   \<and> (startsWith u ''http://'' \<or> startsWith u ''https://'' \<longrightarrow> normalizeUrl u = u)
   \<and> urlsToAudit [''example.com''] = [''https://example.com'']
   \<and> urlsToAudit [''http://example.com''] = [''http://example.com'']"
  by (simp add: normalizeUrl_def urlsToAudit_def startsWith_def)

theorem normalizeUrl_scheme_witness:
  "\<not> startsWith ''example.com'' ''http://'' \<and> \<not> startsWith ''example.com'' ''https://''
   \<and> normalizeUrl ''example.com'' = ''https://example.com''
   \<and> startsWith ''http://example.com'' ''http://''
   \<and> normalizeUrl ''http://example.com'' = ''http://example.com''"
  using normalizeUrl_scheme [of "''example.com''"]
    normalizeUrl_scheme [of "''http://example.com''"]
  by (simp add: startsWith_def)

text \<open>
  Claim C2 says that the list \<^verbatim>\<open>["a.com","a.com","https://a.com"]\<close> becomes the
  single target \<^verbatim>\<open>https://a.com\<close>. The script removes the duplicates before it
  normalizes: the bare host and its prefixed form are different strings, both stay,
  and the target list holds \<^verbatim>\<open>https://a.com\<close> twice.
\<close>

theorem urlsToAudit_keeps_scheme_duplicate:
  "urlsToAudit [''a.com'', ''a.com'', ''https://a.com'']
   = [''https://a.com'', ''https://a.com'']"
  by (simp add: urlsToAudit_def normalizeUrl_def startsWith_def)

subsection \<open>Output naming\<close>

text \<open>
  What \<open>posixResolve\<close> does with a directory and a plain file name: the name is
  appended to a prefix that depends on the directory only.
\<close>

lemma splitSlash_slash:
  "splitSlash cur (xs @ CHR ''/'' # ys) = splitSlash cur xs @ splitSlash [] ys"
  by (induction xs arbitrary: cur) simp_all

lemma splitSlash_plain: "CHR ''/'' \<notin> set n \<Longrightarrow> splitSlash cur n = [cur @ n]"
  by (induction n arbitrary: cur) auto

lemma normalizeSegments_append:
  "normalizeSegments acc (S @ T) = normalizeSegments (normalizeSegments acc S) T"
  by (induction S arbitrary: acc) simp_all

lemma joinSlash_snoc:
  "joinSlash (A @ [n]) = (if A = [] then n else joinSlash A @ ''/'' @ n)"
  by (induction A rule: joinSlash.induct) simp_all

lemma resolveJoin_shape: "resolveJoin ps = [] \<or> (\<exists>P. resolveJoin ps = P @ ''/'')"
  by (induction ps) auto

lemma splitSlash_directory:
  assumes "P = [] \<or> (\<exists>P'. P = P' @ ''/'')" and "CHR ''/'' \<notin> set n"
  shows "splitSlash [] (P @ n @ ''/'') = butlast (splitSlash [] P) @ [n, []]"
  using assms(1)
proof
  assume "P = []"
  then show ?thesis
    using splitSlash_slash [of "[]" n "[]"] assms(2) by (simp add: splitSlash_plain)
next
  assume "\<exists>P'. P = P' @ ''/''"
  then obtain P' where P: "P = P' @ ''/''" ..
  have "splitSlash [] (P' @ CHR ''/'' # (n @ ''/'')) = splitSlash [] P' @ splitSlash [] (n @ ''/'')"
    by (rule splitSlash_slash)
  moreover have "splitSlash [] (n @ ''/'') = [n, []]"
    using splitSlash_slash [of "[]" n "[]"] assms(2) by (simp add: splitSlash_plain)
  moreover have "splitSlash [] P = splitSlash [] P' @ [[]]"
    using splitSlash_slash [of "[]" P' "[]"] by (simp add: P)
  ultimately show ?thesis by (simp add: P)
qed

text \<open>The directory part of a resolved path: it depends on the directory only.\<close>

lemma posixResolve_file:
  assumes "n \<noteq> []" "n \<noteq> ''.''" "n \<noteq> ''..''" "CHR ''/'' \<notin> set n"
  shows "posixResolve cwd [dir, n]
         = ''/'' @ (if normalizeSegments [] (butlast (splitSlash [] (resolveJoin [dir, cwd]))) = []
                    then []
                    else joinSlash (normalizeSegments []
                           (butlast (splitSlash [] (resolveJoin [dir, cwd])))) @ ''/'') @ n"
proof -
  have np: "\<not> prefix ''/'' n"
    using assms(1,4) by (cases n) auto
  have "resolveJoin (rev (cwd # [dir, n])) = resolveJoin [dir, cwd] @ n @ ''/''"
    using assms(1) np by simp
  moreover have "splitSlash [] (resolveJoin [dir, cwd] @ n @ ''/'')
        = butlast (splitSlash [] (resolveJoin [dir, cwd])) @ [n, []]"
    using resolveJoin_shape assms(4) by (rule splitSlash_directory)
  moreover have "normalizeSegments [] (butlast (splitSlash [] (resolveJoin [dir, cwd])) @ [n, []])
        = normalizeSegments [] (butlast (splitSlash [] (resolveJoin [dir, cwd]))) @ [n]"
    using assms(1-3) by (simp add: normalizeSegments_append)
  ultimately show ?thesis
    by (simp only: posixResolve_def joinSlash_snoc append_assoc split: if_splits) simp
qed

lemma sanitizedUrl_chars: "c \<in> set (sanitizedUrl u) \<Longrightarrow> isAlnum c \<or> c = CHR ''_''"
  by (auto simp: sanitizedUrl_def dest!: in_set_takeD)

lemma outputName_plain:
  assumes "fmt \<noteq> []" "fmt \<noteq> ''.''" "CHR ''/'' \<notin> set fmt"
  shows "sanitizedUrl u @ ''.'' @ fmt \<noteq> [] \<and> sanitizedUrl u @ ''.'' @ fmt \<noteq> ''.''
         \<and> sanitizedUrl u @ ''.'' @ fmt \<noteq> ''..''
         \<and> CHR ''/'' \<notin> set (sanitizedUrl u @ ''.'' @ fmt)"
proof -
  have slash: "CHR ''/'' \<notin> set (sanitizedUrl u)"
    using sanitizedUrl_chars [of "CHR ''/''" u] by (auto simp: isAlnum_def)
  have dot: "CHR ''.'' \<notin> set (sanitizedUrl u)"
    using sanitizedUrl_chars [of "CHR ''.''" u] by (auto simp: isAlnum_def)
  have "sanitizedUrl u @ ''.'' @ fmt \<noteq> ''..''"
    using dot assms(2) by (cases "sanitizedUrl u") auto
  moreover have "sanitizedUrl u @ ''.'' @ fmt \<noteq> ''.''"
    using assms(1) by (cases "sanitizedUrl u") auto
  ultimately show ?thesis using slash assms(3) by simp
qed

text \<open>
  Claim C5 says that the derived output paths are deterministic and that distinct
  targets of a run never share one. The first half holds, the second does not: the
  derivation drops the scheme, maps every non-alphanumeric character to \<^verbatim>\<open>_\<close> and
  keeps 100 characters, so different targets can have the same sanitized name. As
  amended: the same URL with the same format always gives the same path, whatever
  \<^verbatim>\<open>resolve\<close> does; and two targets get the same path exactly when their sanitized
  names are equal (under POSIX path resolution, for a format that is not empty, is
  not a single dot and has no slash).
\<close>

theorem outputPathFor_same_iff_sanitized:
  assumes "fmt \<noteq> []" "fmt \<noteq> ''.''" "CHR ''/'' \<notin> set fmt"
  shows "(sanitizedUrl u1 = sanitizedUrl u2 \<longrightarrow>
            outputPathFor resolve dir fmt u1 = outputPathFor resolve dir fmt u2)
         \<and> (outputPathFor (posixResolve cwd) dir fmt u1 = outputPathFor (posixResolve cwd) dir fmt u2
              \<longleftrightarrow> sanitizedUrl u1 = sanitizedUrl u2)"
proof -
  have "posixResolve cwd [dir, sanitizedUrl u1 @ ''.'' @ fmt]
        = posixResolve cwd [dir, sanitizedUrl u2 @ ''.'' @ fmt]
        \<longleftrightarrow> sanitizedUrl u1 = sanitizedUrl u2"
    using outputName_plain [OF assms, of u1] outputName_plain [OF assms, of u2]
    by (simp add: posixResolve_file)
  then show ?thesis by (simp add: outputPathFor_def)
qed

theorem outputPathFor_same_iff_sanitized_witness:
  "''json'' \<noteq> [] \<and> ''json'' \<noteq> ''.'' \<and> CHR ''/'' \<notin> set ''json''
   \<and> sanitizedUrl ''https://a.com'' = ''a_com'' \<and> sanitizedUrl ''https://b.com'' = ''b_com''
   \<and> outputPathFor (posixResolve ''/work'') ''/work/reports'' ''json'' ''https://a.com''
       \<noteq> outputPathFor (posixResolve ''/work'') ''/work/reports'' ''json'' ''https://b.com''"
  using outputPathFor_same_iff_sanitized
    [of "''json''" "''https://a.com''" "''https://b.com''" "posixResolve ''/work''"
        "''/work/reports''" "''/work''"]
  by (simp add: sanitizedUrl_def stripScheme_def isAlnum_def)

text \<open>
  The targets \<^verbatim>\<open>http://a.com\<close> and \<^verbatim>\<open>https://a.com\<close> are different, both stay
  in the target list, and both are written to \<^verbatim>\<open>a_com.json\<close>.
\<close>

theorem outputPathFor_collision_counterexample:
  "''http://a.com'' \<noteq> ''https://a.com''
   \<and> urlsToAudit [''http://a.com'', ''https://a.com''] = [''http://a.com'', ''https://a.com'']
   \<and> outputPathFor (posixResolve ''/work'') ''/work/reports'' ''json'' ''http://a.com''
      = ''/work/reports/a_com.json''
   \<and> outputPathFor (posixResolve ''/work'') ''/work/reports'' ''json'' ''https://a.com''
      = ''/work/reports/a_com.json''"
  by (simp add: urlsToAudit_def normalizeUrl_def startsWith_def outputPathFor_def
      posixResolve_def sanitizedUrl_def stripScheme_def isAlnum_def)

subsection \<open>The configured concurrency\<close>

text \<open>
  Claim C4 says that a non-positive or non-numeric \<^verbatim>\<open>--concurrent\<close> value gives the
  window size 3. \<^verbatim>\<open>parseInt(...) || 3\<close> replaces \<^verbatim>\<open>NaN\<close> and zero only: for
  \<^verbatim>\<open>--concurrent=-2\<close> the window size is \<open>- 2\<close>.
\<close>

theorem concurrentAudits_negative:
  "concurrentAudits ''-2'' = - 2"
  by (simp add: concurrentAudits_def parseInt10_def isWhiteSpace_def isDigit_def)

text \<open>
  What the fallback does cover: the window size is 3 for \<^verbatim>\<open>NaN\<close> and for zero, and
  it is never zero.
\<close>

lemma concurrentAudits_fallback:
  "parseInt10 s = NaN \<or> parseInt10 s = Num 0 \<Longrightarrow> concurrentAudits s = 3"
  by (auto simp: concurrentAudits_def)

lemma concurrentAudits_nonzero: "concurrentAudits s \<noteq> 0"
  by (simp add: concurrentAudits_def split: jsnum.split)

subsection \<open>The audit invoker\<close>

text \<open>
  Claim C3 says that an auditor that exits with code 0 without writing the output
  file gives a failed result with the error \<^verbatim>\<open>Output file not created\<close>. The script
  tests the promise that \<^verbatim>\<open>exists()\<close> returns, not its value, and a promise is
  truthy: in the example run no file exists, and the result is a success that names
  the missing file.
\<close>

theorem runLighthouseForUrl_missing_file_succeeds:
  "fileExists exampleWorld 0 ''/work/reports/bad_com.json'' = False
   \<and> runLighthouseForUrl exampleGlobals exampleWorld 0 ''https://bad.com''
        ''ws://127.0.0.1:9222/devtools/browser/abc''
      = Inr \<lparr>url = ''https://bad.com'', success = True,
              outputPath = Some ''/work/reports/bad_com.json'', error = None\<rparr>"
  by (simp add: runLighthouseForUrl_def tryCatch_def exampleWorld_def exampleGlobals_def
      truthyObject_def outputPathFor_def posixResolve_def sanitizedUrl_def stripScheme_def
      isAlnum_def)

text \<open>
  In general: after exit code 0 the result is a success, whatever the file system
  says; after another exit code it is a failure with the captured error output.
\<close>

lemma runLighthouseForUrl_exit_zero:
  "spawnSync w n (spawnCmd g w u ws) (spawnEnv g ws) = Inr result \<Longrightarrow> exitCode result = 0 \<Longrightarrow>
   runLighthouseForUrl g w n u ws
   = Inr \<lparr>url = u, success = True,
           outputPath = Some (outputPathFor (resolveOf w) (outputDir g) (format g) u),
           error = None\<rparr>"
  by (simp add: runLighthouseForUrl_def tryCatch_def truthyObject_def)

lemma runLighthouseForUrl_exit_nonzero:
  "spawnSync w n (spawnCmd g w u ws) (spawnEnv g ws) = Inr result \<Longrightarrow> exitCode result \<noteq> 0 \<Longrightarrow>
   runLighthouseForUrl g w n u ws
   = Inr \<lparr>url = u, success = False, outputPath = None, error = Some (stderr result)\<rparr>"
  by (simp add: runLighthouseForUrl_def tryCatch_def)

text \<open>
  Claim C7. \<^verbatim>\<open>runLighthouseForUrl\<close> never lets an exception escape: for every target,
  endpoint and outside it returns an audit result for its target, and when the
  subprocess cannot be spawned the result is a failed one whose error is the message
  of the exception.
\<close>

theorem runLighthouseForUrl_never_throws:
  "(\<exists>r. runLighthouseForUrl g w n u ws = Inr r \<and> url r = u)
   \<and> (\<forall>e. spawnSync w n (spawnCmd g w u ws) (spawnEnv g ws) = Inl e \<longrightarrow>
          runLighthouseForUrl g w n u ws
          = Inr \<lparr>url = u, success = False, outputPath = None, error = Some (message e)\<rparr>)"
  by (simp add: runLighthouseForUrl_def tryCatch_def Let_def split: sum.split)

theorem runLighthouseForUrl_never_throws_witness:
  "spawnSync spawnFailsWorld 0
      (spawnCmd exampleGlobals spawnFailsWorld ''https://a.com''
         ''ws://127.0.0.1:9222/devtools/browser/abc'')
      (spawnEnv exampleGlobals ''ws://127.0.0.1:9222/devtools/browser/abc'')
    = Inl (Error ''ENOENT: no such file or directory'')
   \<and> runLighthouseForUrl exampleGlobals spawnFailsWorld 0 ''https://a.com''
        ''ws://127.0.0.1:9222/devtools/browser/abc''
      = Inr \<lparr>url = ''https://a.com'', success = False, outputPath = None,
              error = Some ''ENOENT: no such file or directory''\<rparr>"
  using runLighthouseForUrl_never_throws
    [of exampleGlobals spawnFailsWorld 0 "''https://a.com''"
        "''ws://127.0.0.1:9222/devtools/browser/abc''"]
  by (simp add: spawnFailsWorld_def)

subsection \<open>The batch runner\<close>

text \<open>
  An invocation always returns a result, so \<open>projr\<close> reads it; the result is for the
  target of the invocation, and a failed one has an error text.
\<close>

lemma runLighthouseForUrl_Inr:
  "runLighthouseForUrl g w n u ws = Inr (projr (runLighthouseForUrl g w n u ws))"
  by (simp add: runLighthouseForUrl_def tryCatch_def Let_def split: sum.split)

lemma url_runLighthouseForUrl:
  "url (projr (runLighthouseForUrl g w n u ws)) = u"
  by (simp add: runLighthouseForUrl_def tryCatch_def Let_def split: sum.split)

lemma failed_runLighthouseForUrl:
  "\<not> success (projr (runLighthouseForUrl g w n u ws)) \<Longrightarrow>
   error (projr (runLighthouseForUrl g w n u ws)) \<noteq> None"
  by (auto simp: runLighthouseForUrl_def tryCatch_def Let_def truthyObject_def
      split: sum.splits if_splits)

lemma promiseAll_mapCalls:
  "promiseAll (mapCalls g w n us ws) = Inr (map projr (mapCalls g w n us ws))"
proof (induction us arbitrary: n)
  case Nil
  show ?case by simp
next
  case (Cons u us)
  have "runLighthouseForUrl g w n u ws = Inr (projr (runLighthouseForUrl g w n u ws))"
    by (rule runLighthouseForUrl_Inr)
  then obtain r where r: "runLighthouseForUrl g w n u ws = Inr r" ..
  show ?case by (simp add: r Cons.IH)
qed

lemma length_mapCalls: "length (mapCalls g w n us ws) = length us"
  by (induction us arbitrary: n) simp_all

lemma map_url_mapCalls: "map url (map projr (mapCalls g w n us ws)) = us"
  by (induction us arbitrary: n) (simp_all add: url_runLighthouseForUrl)

lemma mapCalls_append:
  "mapCalls g w n (xs @ ys) ws = mapCalls g w n xs ws @ mapCalls g w (n + length xs) ys ws"
  by (induction xs arbitrary: n) simp_all

lemma failed_mapCalls:
  "r \<in> set (map projr (mapCalls g w n us ws)) \<Longrightarrow> \<not> success r \<Longrightarrow> error r \<noteq> None"
proof (induction us arbitrary: n)
  case Nil
  then show ?case by simp
next
  case (Cons u us)
  from Cons.prems(1)
  have "r = projr (runLighthouseForUrl g w n u ws)
        \<or> r \<in> set (map projr (mapCalls g w (Suc n) us ws))"
    by auto
  then show ?case
  proof
    assume "r = projr (runLighthouseForUrl g w n u ws)"
    with Cons.prems(2) show ?thesis
      using failed_runLighthouseForUrl [of g w n u ws] by simp
  next
    assume "r \<in> set (map projr (mapCalls g w (Suc n) us ws))"
    then show ?thesis using Cons.prems(2) by (rule Cons.IH)
  qed
qed

lemma slice_forward:
  "0 \<le> i \<Longrightarrow> 0 < c \<Longrightarrow> slice xs i (i + c) = take (nat c) (drop (nat i) xs)"
  by (auto simp: slice_def Let_def min_def)


lemma chunkLoop_forward:
  assumes c: "0 < c"
  shows "0 \<le> i \<Longrightarrow>
    \<exists>B. chunkLoop g w urls c ws i results batches
          = Some (Inr (results @ map projr (mapCalls g w (length results) (drop (nat i) urls) ws),
                       batches @ B))
        \<and> concat B = drop (nat i) urls
        \<and> (\<forall>b\<in>set B. b \<noteq> [] \<and> int (length b) \<le> c)
        \<and> (\<forall>b\<in>set (butlast B). int (length b) = c)"
proof (induction "nat (int (length urls) - i)" arbitrary: i results batches rule: less_induct)
  case less
  show ?case
  proof (cases "i < int (length urls)")
    case False
    then have "drop (nat i) urls = []" by simp
    moreover have "chunkLoop g w urls c ws i results batches = Some (Inr (results, batches))"
      using False by (subst chunkLoop.simps) simp
    ultimately show ?thesis by simp
  next
    case True
    define chunk where "chunk = take (nat c) (drop (nat i) urls)"
    define batchResults where "batchResults = map projr (mapCalls g w (length results) chunk ws)"
    have sl: "slice urls i (i + c) = chunk"
      using less.prems c by (simp add: slice_forward chunk_def)
    have chunk_ne: "chunk \<noteq> []"
      using True less.prems c by (simp add: chunk_def)
    have chunk_le: "int (length chunk) \<le> c"
      using c by (simp add: chunk_def)
    have rest: "drop (nat (i + c)) urls = drop (nat c) (drop (nat i) urls)"
      using less.prems c by (simp add: nat_add_distrib add.commute)
    have parts: "drop (nat i) urls = chunk @ drop (nat (i + c)) urls"
      by (simp only: rest chunk_def append_take_drop_id)
    have step: "chunkLoop g w urls c ws i results batches
                = chunkLoop g w urls c ws (i + c) (results @ batchResults) (batches @ [chunk])"
      using True
      by (subst chunkLoop.simps) (simp add: sl promiseAll_mapCalls batchResults_def)
    have "nat (int (length urls) - (i + c)) < nat (int (length urls) - i)"
      using True c by simp
    moreover have "0 \<le> i + c" using less.prems c by simp
    ultimately obtain B where
      B: "chunkLoop g w urls c ws (i + c) (results @ batchResults) (batches @ [chunk])
          = Some (Inr ((results @ batchResults)
                         @ map projr (mapCalls g w (length (results @ batchResults))
                             (drop (nat (i + c)) urls) ws),
                       (batches @ [chunk]) @ B))"
      and cB: "concat B = drop (nat (i + c)) urls"
      and lB: "\<forall>b\<in>set B. b \<noteq> [] \<and> int (length b) \<le> c"
      and fB: "\<forall>b\<in>set (butlast B). int (length b) = c"
      using less.hyps [of "i + c" "results @ batchResults" "batches @ [chunk]"] by blast
    have len: "length (results @ batchResults) = length results + length chunk"
      by (simp add: batchResults_def length_mapCalls)
    have calls: "map projr (mapCalls g w (length results) (drop (nat i) urls) ws)
                 = batchResults
                   @ map projr (mapCalls g w (length (results @ batchResults))
                       (drop (nat (i + c)) urls) ws)"
      by (subst parts) (simp add: mapCalls_append batchResults_def length_mapCalls)
    have full: "B \<noteq> [] \<Longrightarrow> int (length chunk) = c"
    proof -
      assume "B \<noteq> []"
      then obtain b where "b \<in> set B" by (cases B) auto
      with lB have "b \<noteq> []" by simp
      with \<open>b \<in> set B\<close> have "concat B \<noteq> []" by auto
      with cB have "nat (i + c) < length urls" by simp
      then have "nat c \<le> length (drop (nat i) urls)"
        using less.prems c by simp
      then show ?thesis using c by (simp add: chunk_def)
    qed
    have "chunkLoop g w urls c ws i results batches
          = Some (Inr (results @ map projr (mapCalls g w (length results) (drop (nat i) urls) ws),
                       batches @ (chunk # B)))"
      by (simp add: step B calls)
    moreover have "concat (chunk # B) = drop (nat i) urls"
      using parts cB by simp
    moreover have "\<forall>b\<in>set (chunk # B). b \<noteq> [] \<and> int (length b) \<le> c"
      using lB chunk_ne chunk_le by simp
    moreover have "\<forall>b\<in>set (butlast (chunk # B)). int (length b) = c"
      using fB full by simp
    ultimately show ?thesis by blast
  qed
qed


lemma nth_mapCalls:
  "i < length us \<Longrightarrow> mapCalls g w n us ws ! i = runLighthouseForUrl g w (n + i) (us ! i) ws"
proof (induction us arbitrary: n i)
  case Nil
  then show ?case by simp
next
  case (Cons u us)
  then show ?case by (cases i) simp_all
qed

lemma chunkLoop_step:
  "i < int (length urls) \<Longrightarrow>
   chunkLoop g w urls c ws i results batches
   = chunkLoop g w urls c ws (i + c)
       (results @ map projr (mapCalls g w (length results) (slice urls i (i + c)) ws))
       (batches @ [slice urls i (i + c)])"
  by (subst chunkLoop.simps) (simp add: promiseAll_mapCalls)

lemma chunkLoop_done:
  "\<not> i < int (length urls) \<Longrightarrow>
   chunkLoop g w urls c ws i results batches = Some (Inr (results, batches))"
  by (subst chunkLoop.simps) simp

lemma chunkLoop_stuck:
  assumes "chunkLoop g w urls c ws i results batches = Some y"
  shows "c \<le> 0 \<longrightarrow> int (length urls) \<le> i"
proof (rule chunkLoop.raw_induct
    [where P = "\<lambda>g w urls c ws i results batches y. c \<le> 0 \<longrightarrow> int (length urls) \<le> i",
     OF _ assms])
  fix loop :: "globals \<Rightarrow> world \<Rightarrow> string list \<Rightarrow> int \<Rightarrow> string \<Rightarrow> int \<Rightarrow> AuditResult list \<Rightarrow>
    string list list \<Rightarrow> (exn + AuditResult list \<times> string list list) option"
  fix g w urls c ws i results batches y
  assume IH: "\<And>g w urls c ws i results batches y.
      loop g w urls c ws i results batches = Some y \<Longrightarrow> c \<le> 0 \<longrightarrow> int (length urls) \<le> i"
  assume eq: "(if i < int (length urls) then
        (case promiseAll (mapCalls g w (length results) (slice urls i (i + c)) ws) of
           Inl e \<Rightarrow> Some (Inl e)
         | Inr batchResults \<Rightarrow>
             loop g w urls c ws (i + c) (results @ batchResults)
               (batches @ [slice urls i (i + c)]))
      else Some (Inr (results, batches))) = Some y"
  show "c \<le> 0 \<longrightarrow> int (length urls) \<le> i"
  proof (cases "i < int (length urls)")
    case False
    then show ?thesis by simp
  next
    case True
    with eq
    have "loop g w urls c ws (i + c)
            (results @ map projr (mapCalls g w (length results) (slice urls i (i + c)) ws))
            (batches @ [slice urls i (i + c)]) = Some y"
      by (simp add: promiseAll_mapCalls)
    then have "c \<le> 0 \<longrightarrow> int (length urls) \<le> i + c" by (rule IH)
    with True show ?thesis by auto
  qed
qed

text \<open>
  Claim C1. For every list of targets and every positive window size, the batch runner
  returns one result per target: the result list is as long as the target list, the
  \<open>i\<close>-th result is the outcome of the invocation for the \<open>i\<close>-th target, and its
  \<^verbatim>\<open>url\<close> is that target. This holds for every target list, the deduplicated and
  normalized one included.
\<close>

theorem processUrlsInChunks_results_match_targets:
  assumes "0 < chunkSize"
  shows "\<exists>results. processUrlsInChunks g w urls chunkSize ws = Some (Inr results)
           \<and> length results = length urls
           \<and> map url results = urls
           \<and> (\<forall>i<length urls. url (results ! i) = urls ! i
                 \<and> runLighthouseForUrl g w i (urls ! i) ws = Inr (results ! i))"
proof -
  define results where "results = map projr (mapCalls g w 0 urls ws)"
  obtain B where "chunkLoop g w urls chunkSize ws 0 [] [] = Some (Inr (results, B))"
    using chunkLoop_forward [OF assms, of 0 g w urls ws "[]" "[]"]
    by (auto simp: results_def)
  then have "processUrlsInChunks g w urls chunkSize ws = Some (Inr results)"
    by (simp add: processUrlsInChunks_def)
  moreover have len: "length results = length urls"
    by (simp add: results_def length_mapCalls)
  moreover have urls: "map url results = urls"
    unfolding results_def by (rule map_url_mapCalls)
  moreover have "\<forall>i<length urls. url (results ! i) = urls ! i
                   \<and> runLighthouseForUrl g w i (urls ! i) ws = Inr (results ! i)"
  proof (intro allI impI conjI)
    fix i assume i: "i < length urls"
    then have "url (results ! i) = map url results ! i" using len by simp
    then show "url (results ! i) = urls ! i" by (simp only: urls)
    have "results ! i = projr (runLighthouseForUrl g w i (urls ! i) ws)"
      using i by (simp add: results_def length_mapCalls nth_mapCalls)
    then show "runLighthouseForUrl g w i (urls ! i) ws = Inr (results ! i)"
      using runLighthouseForUrl_Inr [of g w i "urls ! i" ws] by simp
  qed
  ultimately show ?thesis by blast
qed

theorem processUrlsInChunks_results_match_targets_witness:
  "0 < (2::int)
   \<and> processUrlsInChunks exampleGlobals exampleWorld (urlsToAudit [''fb.com'', ''google.com''])
        2 ''ws://127.0.0.1:9222/devtools/browser/abc''
      = Some (Inr [\<lparr>url = ''https://fb.com'', success = True,
                     outputPath = Some ''/work/reports/fb_com.json'', error = None\<rparr>,
                   \<lparr>url = ''https://google.com'', success = True,
                     outputPath = Some ''/work/reports/google_com.json'', error = None\<rparr>])"
  using processUrlsInChunks_results_match_targets
    [of 2 exampleGlobals exampleWorld "urlsToAudit [''fb.com'', ''google.com'']"
        "''ws://127.0.0.1:9222/devtools/browser/abc''"]
  by (simp add: processUrlsInChunks_def chunkLoop_step chunkLoop_done slice_def
      urlsToAudit_def normalizeUrl_def startsWith_def runLighthouseForUrl_def tryCatch_def
      exampleWorld_def exampleGlobals_def truthyObject_def outputPathFor_def posixResolve_def
      sanitizedUrl_def stripScheme_def isAlnum_def)

text \<open>
  Claim C8. For a positive window size the chunks that the batch runner goes through
  are consecutive pieces of the target list: their concatenation is the list, none is
  empty or longer than the window size, and all but the last have exactly the window
  size. Seven targets with window size 3 give three chunks, of sizes 3, 3 and 1.
\<close>

theorem chunksIssued_partition:
  "(0 < c \<longrightarrow>
      (\<exists>B. chunksIssued g w urls c ws = Some B
           \<and> concat B = urls
           \<and> (\<forall>b\<in>set B. b \<noteq> [] \<and> int (length b) \<le> c)
           \<and> (\<forall>b\<in>set (butlast B). int (length b) = c)))
   \<and> (length urls = 7 \<longrightarrow>
        map_option (map length) (chunksIssued g w urls 3 ws) = Some [3, 3, 1])"
proof (intro conjI impI)
  assume c: "0 < c"
  from chunkLoop_forward [OF c, of 0 g w urls ws "[]" "[]"]
  show "\<exists>B. chunksIssued g w urls c ws = Some B
           \<and> concat B = urls
           \<and> (\<forall>b\<in>set B. b \<noteq> [] \<and> int (length b) \<le> c)
           \<and> (\<forall>b\<in>set (butlast B). int (length b) = c)"
    by (auto simp: chunksIssued_def)
next
  assume "length urls = 7"
  then obtain a1 a2 a3 a4 a5 a6 a7 where urls: "urls = [a1, a2, a3, a4, a5, a6, a7]"
    by (auto simp: numeral_eq_Suc length_Suc_conv)
  have "chunksIssued g w urls 3 ws = Some [[a1, a2, a3], [a4, a5, a6], [a7]]"
    by (simp add: urls chunksIssued_def chunkLoop_step chunkLoop_done slice_def)
  then show "map_option (map length) (chunksIssued g w urls 3 ws) = Some [3, 3, 1]"
    by simp
qed

theorem chunksIssued_partition_witness:
  "0 < (3::int)
   \<and> length [''a'', ''b'', ''c'', ''d'', ''e'', ''f'', ''g''] = 7
   \<and> chunksIssued exampleGlobals exampleWorld [''a'', ''b'', ''c'', ''d'', ''e'', ''f'', ''g''] 3
        ''ws://127.0.0.1:9222/devtools/browser/abc''
      = Some [[''a'', ''b'', ''c''], [''d'', ''e'', ''f''], [''g'']]"
  using chunksIssued_partition
    [of 3 exampleGlobals exampleWorld "[''a'', ''b'', ''c'', ''d'', ''e'', ''f'', ''g'']"
        "''ws://127.0.0.1:9222/devtools/browser/abc''"]
  by (simp add: chunksIssued_def chunkLoop_step chunkLoop_done slice_def)

subsection \<open>The run\<close>

text \<open>
  The batch returns for a positive window size and never returns for another one on a
  non-empty target list; the summary loop finds an error text in every failed result;
  a run whose browser answers and closes gets through the summary and the
  \<^verbatim>\<open>finally\<close> block.
\<close>

lemma processUrlsInChunks_forward:
  assumes "0 < c"
  shows "processUrlsInChunks g w urls c ws = Some (Inr (map projr (mapCalls g w 0 urls ws)))"
  using chunkLoop_forward [OF assms, of 0 g w urls ws "[]" "[]"]
  by (auto simp: processUrlsInChunks_def)

lemma processUrlsInChunks_stuck:
  assumes "c \<le> 0" "urls \<noteq> []"
  shows "processUrlsInChunks g w urls c ws = None"
proof (cases "chunkLoop g w urls c ws 0 [] []")
  case None
  then show ?thesis by (simp add: processUrlsInChunks_def)
next
  case (Some y)
  from chunkLoop_stuck [OF Some] assms have False by simp
  then show ?thesis ..
qed

lemma failedLines_ok:
  "\<forall>r\<in>set rs. \<not> success r \<longrightarrow> error r \<noteq> None \<Longrightarrow>
   snd (failedLines rs) = None \<and> CloseCalled \<notin> set (fst (failedLines rs))"
  by (induction rs) (auto simp: firstLine_def split: option.splits)

lemma finallyBlock_closes:
  "\<exists>closeLog. finallyBlock trace (Some b) k = (trace @ [CloseCalled, closeLog], Returned)
      \<and> closeLog \<noteq> CloseCalled"
  by (simp add: finallyBlock_def split: option.split)

lemma runWithBrowser_completes:
  assumes v: "versionOf b = Inr v"
    and c: "0 < concurrentAudits (concurrent g)"
    and cl: "closeOf b 0 = None"
  shows "\<exists>succeeded lines closeLog.
           runWithBrowser g w b urls
           = (CloseCalled # SummaryLogged (length urls) succeeded (length urls - succeeded)
                # lines @ [CloseCalled, closeLog], Returned)
           \<and> CloseCalled \<notin> set lines \<and> closeLog \<noteq> CloseCalled"
proof -
  define results where "results = map projr (mapCalls g w 0 urls (wsEndpointOf b))"
  define succeeded where "succeeded = length (filter success results)"
  define lines where
    "lines = (if length results - succeeded > 0 then fst (failedLines results) else [])"
  have batch: "processUrlsInChunks g w urls (concurrentAudits (concurrent g)) (wsEndpointOf b)
               = Some (Inr results)"
    unfolding results_def using c by (rule processUrlsInChunks_forward)
  have len: "length results = length urls"
    by (simp add: results_def length_mapCalls)
  have ok: "snd (failedLines results) = None \<and> CloseCalled \<notin> set (fst (failedLines results))"
  proof (rule failedLines_ok, intro ballI impI)
    fix r assume "r \<in> set results" and "\<not> success r"
    then show "error r \<noteq> None"
      unfolding results_def by (rule failed_mapCalls)
  qed
  obtain closeLog where
    fin: "finallyBlock (CloseCalled # SummaryLogged (length urls) succeeded
                          (length urls - succeeded) # lines) (Some b) 1
          = ((CloseCalled # SummaryLogged (length urls) succeeded
                (length urls - succeeded) # lines) @ [CloseCalled, closeLog], Returned)"
    and log: "closeLog \<noteq> CloseCalled"
    using finallyBlock_closes by blast
  have "runWithBrowser g w b urls
        = finallyBlock (CloseCalled # SummaryLogged (length urls) succeeded
                          (length urls - succeeded) # lines) (Some b) 1"
    using ok by (simp add: runWithBrowser_def v batch cl Let_def lines_def succeeded_def len)
  with fin have "runWithBrowser g w b urls
        = (CloseCalled # SummaryLogged (length urls) succeeded (length urls - succeeded)
             # lines @ [CloseCalled, closeLog], Returned)"
    by simp
  moreover have "CloseCalled \<notin> set lines" using ok by (simp add: lines_def)
  ultimately show ?thesis using log by blast
qed

text \<open>
  The runs that end in the \<^verbatim>\<open>catch\<close> block: the process exits there, and the
  \<^verbatim>\<open>finally\<close> block does not close the browser.
\<close>

lemma runWithBrowser_version_throws:
  "versionOf b = Inl e \<Longrightarrow>
   runWithBrowser g w b urls = ([RunErrorLogged (message e), ProcessExit 1], Exited 1)"
  by (simp add: runWithBrowser_def catchBlock_def)

lemma runWithBrowser_first_close_throws:
  assumes "versionOf b = Inr v" and "0 < concurrentAudits (concurrent g)"
    and "closeOf b 0 = Some e"
  shows "runWithBrowser g w b urls
         = ([CloseCalled, RunErrorLogged (message e), ProcessExit 1], Exited 1)"
  using assms by (simp add: runWithBrowser_def catchBlock_def processUrlsInChunks_forward)

text \<open>
  Claim C6 says that \<^verbatim>\<open>browser.close()\<close> is invoked exactly once in every run that
  completes setup. The script closes the browser after the batch and again in the
  \<^verbatim>\<open>finally\<close> block. As amended: in every run in which the browser was connected
  or launched and answered \<^verbatim>\<open>version()\<close>, the window size is positive and the first
  \<^verbatim>\<open>close()\<close> returns, \<^verbatim>\<open>close()\<close> is invoked exactly twice and
  \<^verbatim>\<open>runLighthouse\<close> returns, whether the second call throws or not.
\<close>

theorem runLighthouse_closes_twice:
  assumes "acquireBrowser g w = Acquired g' b" and "versionOf b = Inr v"
    and "0 < concurrentAudits (concurrent g')" and "closeOf b 0 = None"
  shows "closeCalls (runLighthouse g w urls) = 2 \<and> snd (runLighthouse g w urls) = Returned"
proof -
  obtain succeeded lines closeLog where
    run: "runWithBrowser g' w b urls
          = (CloseCalled # SummaryLogged (length urls) succeeded (length urls - succeeded)
               # lines @ [CloseCalled, closeLog], Returned)"
    and lines: "CloseCalled \<notin> set lines" and log: "closeLog \<noteq> CloseCalled"
    using runWithBrowser_completes [OF assms(2-4)] by blast
  have "filter (\<lambda>ev. ev = CloseCalled) lines = []"
    using lines by (induction lines) auto
  then show ?thesis
    using log by (simp add: runLighthouse_def assms(1) run closeCalls_def)
qed

theorem runLighthouse_closes_twice_witness:
  "acquireBrowser exampleGlobals secondCloseFailsWorld
     = Acquired exampleGlobals secondCloseFailsBrowser
   \<and> versionOf secondCloseFailsBrowser = Inr ''Chrome/120.0.0.0''
   \<and> 0 < concurrentAudits (concurrent exampleGlobals)
   \<and> closeOf secondCloseFailsBrowser 0 = None
   \<and> closeOf secondCloseFailsBrowser 1 = Some (Error ''Target closed'')
   \<and> closeCalls (runLighthouse exampleGlobals secondCloseFailsWorld [''https://a.com'']) = 2
   \<and> snd (runLighthouse exampleGlobals secondCloseFailsWorld [''https://a.com'']) = Returned"
proof -
  have a: "acquireBrowser exampleGlobals secondCloseFailsWorld
           = Acquired exampleGlobals secondCloseFailsBrowser"
    by (simp add: acquireBrowser_def exampleGlobals_def secondCloseFailsWorld_def
        exampleWorld_def truthyString_def)
  have v: "versionOf secondCloseFailsBrowser = Inr ''Chrome/120.0.0.0''"
    by (simp add: secondCloseFailsBrowser_def exampleBrowser_def)
  have c: "0 < concurrentAudits (concurrent exampleGlobals)"
    by (simp add: exampleGlobals_def concurrentAudits_def parseInt10_def isWhiteSpace_def
        isDigit_def)
  have cl: "closeOf secondCloseFailsBrowser 0 = None"
    by (simp add: secondCloseFailsBrowser_def)
  have cl1: "closeOf secondCloseFailsBrowser 1 = Some (Error ''Target closed'')"
    by (simp add: secondCloseFailsBrowser_def)
  from runLighthouse_closes_twice [OF a v c cl, of "[''https://a.com'']"] a v c cl cl1
  show ?thesis by simp
qed

text \<open>The example run closes the browser twice.\<close>

theorem runLighthouse_closes_twice_counterexample:
  "acquireBrowser exampleGlobals exampleWorld = Acquired exampleGlobals exampleBrowser
   \<and> versionOf exampleBrowser = Inr ''Chrome/120.0.0.0''
   \<and> runLighthouse exampleGlobals exampleWorld [''https://a.com'']
      = ([CloseCalled, SummaryLogged 1 1 0, CloseCalled, BrowserClosedLogged], Returned)
   \<and> closeCalls (runLighthouse exampleGlobals exampleWorld [''https://a.com'']) = 2"
proof -
  have a: "acquireBrowser exampleGlobals exampleWorld = Acquired exampleGlobals exampleBrowser"
    by (simp add: acquireBrowser_def exampleGlobals_def exampleWorld_def truthyString_def)
  have c: "concurrentAudits (concurrent exampleGlobals) = 3"
    by (simp add: exampleGlobals_def concurrentAudits_def parseInt10_def isWhiteSpace_def
        isDigit_def)
  have r: "runLighthouseForUrl exampleGlobals exampleWorld 0 ''https://a.com''
             (wsEndpointOf exampleBrowser)
           = Inr \<lparr>url = ''https://a.com'', success = True,
              outputPath = Some ''/work/reports/a_com.json'', error = None\<rparr>"
    by (simp add: runLighthouseForUrl_def tryCatch_def exampleWorld_def exampleGlobals_def
      truthyObject_def outputPathFor_def posixResolve_def sanitizedUrl_def stripScheme_def
      isAlnum_def)
  have p: "processUrlsInChunks exampleGlobals exampleWorld [''https://a.com''] 3
             (wsEndpointOf exampleBrowser)
           = Some (Inr [\<lparr>url = ''https://a.com'', success = True,
              outputPath = Some ''/work/reports/a_com.json'', error = None\<rparr>])"
    by (simp add: processUrlsInChunks_def chunkLoop_step chunkLoop_done slice_def r)
  have v: "versionOf exampleBrowser = Inr ''Chrome/120.0.0.0''"
    and cl: "\<And>k. closeOf exampleBrowser k = None"
    by (simp_all add: exampleBrowser_def)
  have run: "runLighthouse exampleGlobals exampleWorld [''https://a.com'']
      = ([CloseCalled, SummaryLogged 1 1 0, CloseCalled, BrowserClosedLogged], Returned)"
    by (simp add: runLighthouse_def a runWithBrowser_def c p finallyBlock_def v cl Let_def)
  show ?thesis
    by (simp add: a v run closeCalls_def)
qed

text \<open>
  Claim C10 says that \<^verbatim>\<open>processUrlsInChunks\<close> returns for every chunk size of at
  least 1, so that the run reaches the summary once setup has succeeded, and that this
  is not so for a non-positive chunk size, which \<^verbatim>\<open>--concurrent\<close> can produce. The
  batch does return, but \<^verbatim>\<open>browser.close()\<close> stands between it and the summary, and
  an exception of it ends the process. As amended: for every chunk size of at least
  1 the batch returns its results; for a chunk size of at most 0 and a non-empty
  target list it never returns; \<^verbatim>\<open>--concurrent=-2\<close> gives the chunk size \<open>- 2\<close>;
  a run that completes setup with a chunk size of at least 1 reaches the summary if
  the first \<^verbatim>\<open>close()\<close> returns; and a run that completes setup with a configured
  chunk size of at most 0 hangs before it closes the browser.
\<close>

theorem processUrlsInChunks_terminates:
  "(1 \<le> c \<longrightarrow> (\<exists>results. processUrlsInChunks g w urls c ws = Some (Inr results)))
   \<and> (c \<le> 0 \<and> urls \<noteq> [] \<longrightarrow> processUrlsInChunks g w urls c ws = None)
   \<and> concurrentAudits ''-2'' = - 2
   \<and> (acquireBrowser g w = Acquired g' b \<and> versionOf b = Inr v
        \<and> 1 \<le> concurrentAudits (concurrent g') \<and> closeOf b 0 = None \<longrightarrow>
        (\<exists>succeeded. SummaryLogged (length urls) succeeded (length urls - succeeded)
             \<in> set (fst (runLighthouse g w urls))))
   \<and> (acquireBrowser g w = Acquired g' b \<and> versionOf b = Inr v
        \<and> concurrentAudits (concurrent g') \<le> 0 \<and> urls \<noteq> [] \<longrightarrow>
        runLighthouse g w urls = ([], Hung))"
proof (intro conjI impI)
  assume "1 \<le> c"
  then have "0 < c" by simp
  then show "\<exists>results. processUrlsInChunks g w urls c ws = Some (Inr results)"
    by (simp add: processUrlsInChunks_forward)
next
  assume "c \<le> 0 \<and> urls \<noteq> []"
  then show "processUrlsInChunks g w urls c ws = None"
    by (simp add: processUrlsInChunks_stuck)
next
  show "concurrentAudits ''-2'' = - 2"
    by (simp add: concurrentAudits_def parseInt10_def isWhiteSpace_def isDigit_def)
next
  assume h: "acquireBrowser g w = Acquired g' b \<and> versionOf b = Inr v
        \<and> 1 \<le> concurrentAudits (concurrent g') \<and> closeOf b 0 = None"
  then have "versionOf b = Inr v" "0 < concurrentAudits (concurrent g')" "closeOf b 0 = None"
    by simp_all
  then obtain succeeded lines closeLog where
    "runWithBrowser g' w b urls
          = (CloseCalled # SummaryLogged (length urls) succeeded (length urls - succeeded)
               # lines @ [CloseCalled, closeLog], Returned)"
    using runWithBrowser_completes by blast
  with h have "SummaryLogged (length urls) succeeded (length urls - succeeded)
             \<in> set (fst (runLighthouse g w urls))"
    by (simp add: runLighthouse_def)
  then show "\<exists>succeeded. SummaryLogged (length urls) succeeded (length urls - succeeded)
             \<in> set (fst (runLighthouse g w urls))" ..
next
  assume h: "acquireBrowser g w = Acquired g' b \<and> versionOf b = Inr v
        \<and> concurrentAudits (concurrent g') \<le> 0 \<and> urls \<noteq> []"
  then have "processUrlsInChunks g' w urls (concurrentAudits (concurrent g')) (wsEndpointOf b)
             = None"
    by (simp add: processUrlsInChunks_stuck)
  with h show "runLighthouse g w urls = ([], Hung)"
    by (simp add: runLighthouse_def runWithBrowser_def)
qed

theorem processUrlsInChunks_terminates_witness:
  "(1::int) \<le> 3
   \<and> (\<exists>results. processUrlsInChunks exampleGlobals exampleWorld [''https://a.com''] 3
          ''ws://127.0.0.1:9222/devtools/browser/abc'' = Some (Inr results))
   \<and> (- 2::int) \<le> 0 \<and> [''https://a.com''] \<noteq> []
   \<and> processUrlsInChunks exampleGlobals exampleWorld [''https://a.com''] (- 2)
        ''ws://127.0.0.1:9222/devtools/browser/abc'' = None
   \<and> acquireBrowser exampleGlobals exampleWorld = Acquired exampleGlobals exampleBrowser
   \<and> versionOf exampleBrowser = Inr ''Chrome/120.0.0.0''
   \<and> 1 \<le> concurrentAudits (concurrent exampleGlobals)
   \<and> closeOf exampleBrowser 0 = None
   \<and> (\<exists>succeeded. SummaryLogged 1 succeeded (1 - succeeded)
         \<in> set (fst (runLighthouse exampleGlobals exampleWorld [''https://a.com''])))
   \<and> acquireBrowser negativeGlobals exampleWorld = Acquired negativeGlobals exampleBrowser
   \<and> concurrentAudits (concurrent negativeGlobals) \<le> 0
   \<and> runLighthouse negativeGlobals exampleWorld [''https://a.com''] = ([], Hung)"
proof -
  have a: "acquireBrowser exampleGlobals exampleWorld = Acquired exampleGlobals exampleBrowser"
    by (simp add: acquireBrowser_def exampleGlobals_def exampleWorld_def truthyString_def)
  have an: "acquireBrowser negativeGlobals exampleWorld = Acquired negativeGlobals exampleBrowser"
    by (simp add: acquireBrowser_def negativeGlobals_def exampleGlobals_def exampleWorld_def
        truthyString_def)
  have v: "versionOf exampleBrowser = Inr ''Chrome/120.0.0.0''"
    and cl: "closeOf exampleBrowser 0 = None"
    by (simp_all add: exampleBrowser_def)
  have c: "1 \<le> concurrentAudits (concurrent exampleGlobals)"
    by (simp add: exampleGlobals_def concurrentAudits_def parseInt10_def isWhiteSpace_def
        isDigit_def)
  have cn: "concurrentAudits (concurrent negativeGlobals) \<le> 0"
    by (simp add: negativeGlobals_def concurrentAudits_def parseInt10_def isWhiteSpace_def
        isDigit_def)
  note t1 = processUrlsInChunks_terminates
    [of 3 exampleGlobals exampleWorld "[''https://a.com'']"
        "''ws://127.0.0.1:9222/devtools/browser/abc''" exampleGlobals exampleBrowser
        "''Chrome/120.0.0.0''"]
  note t2 = processUrlsInChunks_terminates
    [of "- 2" negativeGlobals exampleWorld "[''https://a.com'']"
        "''ws://127.0.0.1:9222/devtools/browser/abc''" negativeGlobals exampleBrowser
        "''Chrome/120.0.0.0''"]
  note t3 = processUrlsInChunks_terminates
    [of "- 2" exampleGlobals exampleWorld "[''https://a.com'']"
        "''ws://127.0.0.1:9222/devtools/browser/abc''" exampleGlobals exampleBrowser
        "''Chrome/120.0.0.0''"]
  from t1 a v c cl have
    p1: "\<exists>results. processUrlsInChunks exampleGlobals exampleWorld [''https://a.com''] 3
          ''ws://127.0.0.1:9222/devtools/browser/abc'' = Some (Inr results)"
    and p4: "\<exists>succeeded. SummaryLogged 1 succeeded (1 - succeeded)
         \<in> set (fst (runLighthouse exampleGlobals exampleWorld [''https://a.com'']))"
    by simp_all
  from t3 have
    p2: "processUrlsInChunks exampleGlobals exampleWorld [''https://a.com''] (- 2)
        ''ws://127.0.0.1:9222/devtools/browser/abc'' = None"
    by simp
  from t2 an v cn have
    p5: "runLighthouse negativeGlobals exampleWorld [''https://a.com''] = ([], Hung)"
    by simp
  from p1 p2 p4 p5 a an v c cn cl show ?thesis by simp
qed

text \<open>
  A run that completes setup with window size 3 and ends without a summary: the
  \<^verbatim>\<open>close()\<close> after the batch throws.
\<close>

theorem runLighthouse_close_failure_counterexample:
  "acquireBrowser exampleGlobals closeFailsWorld = Acquired exampleGlobals closeFailsBrowser
   \<and> versionOf closeFailsBrowser = Inr ''Chrome/120.0.0.0''
   \<and> concurrentAudits (concurrent exampleGlobals) = 3
   \<and> runLighthouse exampleGlobals closeFailsWorld [''https://a.com'']
      = ([CloseCalled, RunErrorLogged ''Protocol error: Connection closed.'', ProcessExit 1],
         Exited 1)"
proof -
  have a: "acquireBrowser exampleGlobals closeFailsWorld
           = Acquired exampleGlobals closeFailsBrowser"
    by (simp add: acquireBrowser_def exampleGlobals_def closeFailsWorld_def exampleWorld_def
        truthyString_def)
  have c: "concurrentAudits (concurrent exampleGlobals) = 3"
    by (simp add: exampleGlobals_def concurrentAudits_def parseInt10_def isWhiteSpace_def
        isDigit_def)
  have v: "versionOf closeFailsBrowser = Inr ''Chrome/120.0.0.0''"
    and cl: "closeOf closeFailsBrowser 0 = Some (Error ''Protocol error: Connection closed.'')"
    by (simp_all add: closeFailsBrowser_def exampleBrowser_def)
  have p: "processUrlsInChunks exampleGlobals closeFailsWorld [''https://a.com''] 3
             (wsEndpointOf closeFailsBrowser)
           = Some (Inr (map projr (mapCalls exampleGlobals closeFailsWorld 0 [''https://a.com'']
                (wsEndpointOf closeFailsBrowser))))"
    by (simp add: processUrlsInChunks_forward)
  have run: "runLighthouse exampleGlobals closeFailsWorld [''https://a.com'']
      = ([CloseCalled, RunErrorLogged ''Protocol error: Connection closed.'', ProcessExit 1],
         Exited 1)"
    by (simp add: runLighthouse_def a runWithBrowser_def c p v cl catchBlock_def)
  show ?thesis
    by (simp add: a v c run)
qed

end
